theory Spec2Isabelle
  imports Complex_Main
begin

section \<open>Values and errors of the Python run time\<close>

text \<open>
  The value \<^verbatim>\<open>json.loads\<close> returns: \<^verbatim>\<open>None\<close>, a bool, an int, a float, a
  str, a list or a dict. A dict is an association list read with \<open>map_of\<close>.
\<close>

datatype json =
    JNull
  | JBool bool
  | JInt int
  | JFloat real
  | JStr string
  | JArr "json list"
  | JObj "(string \<times> json) list"

datatype py_error = JSONDecodeError | KeyError | TypeError | AttributeError

text \<open>\<^verbatim>\<open>needle in haystack\<close> on two strings.\<close>

fun is_prefix :: "string \<Rightarrow> string \<Rightarrow> bool" where
  "is_prefix [] s = True"
| "is_prefix (p # ps) [] = False"
| "is_prefix (p # ps) (c # cs) = (p = c \<and> is_prefix ps cs)"

fun str_contains :: "string \<Rightarrow> string \<Rightarrow> bool" where
  "str_contains needle [] = (needle = [])"
| "str_contains needle (c # cs) = (is_prefix needle (c # cs) \<or> str_contains needle cs)"

text \<open>
  \<^verbatim>\<open>key in value\<close> for a string key: a dict looks the key up, a list compares its
  elements with the key, a str searches for the substring, and \<^verbatim>\<open>None\<close>, a bool or a
  number are not containers (TypeError).
\<close>

fun py_contains :: "json \<Rightarrow> string \<Rightarrow> py_error + bool" where
  "py_contains (JObj kvs) k = Inr (map_of kvs k \<noteq> None)"
| "py_contains (JArr xs) k = Inr (JStr k \<in> set xs)"
| "py_contains (JStr s) k = Inr (str_contains k s)"
| "py_contains JNull k = Inl TypeError"
| "py_contains (JBool b) k = Inl TypeError"
| "py_contains (JInt i) k = Inl TypeError"
| "py_contains (JFloat x) k = Inl TypeError"

text \<open>\<^verbatim>\<open>value[key]\<close> for a string key: only a dict can be indexed by a str.\<close>

fun py_getitem :: "json \<Rightarrow> string \<Rightarrow> py_error + json" where
  "py_getitem (JObj kvs) k = (case map_of kvs k of None \<Rightarrow> Inl KeyError | Some v \<Rightarrow> Inr v)"
| "py_getitem (JArr xs) k = Inl TypeError"
| "py_getitem (JStr s) k = Inl TypeError"
| "py_getitem JNull k = Inl TypeError"
| "py_getitem (JBool b) k = Inl TypeError"
| "py_getitem (JInt i) k = Inl TypeError"
| "py_getitem (JFloat x) k = Inl TypeError"

section \<open>Style profile (style/profile.py)\<close>

text \<open>
  \<^verbatim>\<open>StyleDimension\<close> and \<^verbatim>\<open>StyleProfile\<close>. The fields \<^verbatim>\<open>value\<close> and
  \<^verbatim>\<open>examples\<close> are declared \<^verbatim>\<open>str\<close> and \<^verbatim>\<open>list[str]\<close>, but assignment is
  not validated, so at run time they hold whatever the analyzer stored: a JSON value.
  \<^verbatim>\<open>confidence\<close> is a float, modelled as a real number. \<^verbatim>\<open>dimensions\<close> is a
  dict, kept in insertion order. \<^verbatim>\<open>last_updated\<close> is a time stamp.
\<close>

record style_dimension =
  name :: string
  description :: string
  dvalue :: json
  confidence :: real
  examples :: "json list"

record style_profile =
  user_id :: string
  dimensions :: "(string \<times> style_dimension) list"
  edit_count :: int
  last_updated :: nat

definition new_dimension :: "string \<Rightarrow> string \<Rightarrow> string \<Rightarrow> style_dimension" where
  "new_dimension n d v =
     \<lparr>name = n, description = d, dvalue = JStr v, confidence = 0, examples = []\<rparr>"

definition default_profile :: "nat \<Rightarrow> style_profile" where
  "default_profile now =
     \<lparr>user_id = ''default'',
      dimensions =
        [(''sentence_length'', new_dimension ''Sentence Length''
            ''Preference for short, punchy vs. long, flowing sentences'' ''balanced''),
         (''formality'', new_dimension ''Formality''
            ''Formal/academic vs. conversational tone'' ''professional but accessible''),
         (''jargon_level'', new_dimension ''Technical Jargon''
            ''Heavy use of medical/AI terminology vs. plain language''
            ''moderate -- explains terms when first used''),
         (''structure'', new_dimension ''Structure Preference''
            ''Headers and lists vs. flowing prose'' ''mixed''),
         (''opening_style'', new_dimension ''Opening Style''
            ''How articles begin: anecdote, question, statistic, statement''
            ''not yet determined''),
         (''closing_style'', new_dimension ''Closing Style''
            ''How articles end: call to action, summary, question, reflection''
            ''not yet determined''),
         (''humor'', new_dimension ''Humor Usage''
            ''Frequency and type of humor'' ''not yet determined''),
         (''personal_anecdotes'', new_dimension ''Personal Anecdotes''
            ''Use of personal stories and experiences'' ''not yet determined'')],
      edit_count = 0,
      last_updated = now\<rparr>"

section \<open>Style analyzer (style/analyzer.py)\<close>

text \<open>\<^verbatim>\<open>xs[-5:]\<close>: the last five elements, or all of them when there are fewer.\<close>

definition last5 :: "'a list \<Rightarrow> 'a list" where
  "last5 xs = drop (length xs - 5) xs"

text \<open>
  The body of \<^verbatim>\<open>if isinstance(entry, dict)\<close>: the value is overwritten by the entry's
  "preference" when it has one, the confidence grows by 0.15 up to 1.0, and an "example"
  is appended and the list cut to its last five.
\<close>

definition update_dimension :: "(string \<times> json) list \<Rightarrow> style_dimension \<Rightarrow> style_dimension" where
  "update_dimension entry dimen =
     (let dimen1 = dimen\<lparr>dvalue := (case map_of entry ''preference'' of
                                   None \<Rightarrow> dvalue dimen | Some v \<Rightarrow> v)\<rparr>;
          dimen2 = dimen1\<lparr>confidence := min 1 (confidence dimen1 + 15 / 100)\<rparr>
      in case map_of entry ''example'' of
           None \<Rightarrow> dimen2
         | Some ex \<Rightarrow> dimen2\<lparr>examples := last5 (examples dimen2 @ [ex])\<rparr>)"

definition apply_entry :: "json \<Rightarrow> style_dimension \<Rightarrow> style_dimension" where
  "apply_entry entry dimen = (case entry of JObj kvs \<Rightarrow> update_dimension kvs dimen | _ \<Rightarrow> dimen)"

text \<open>
  The loop over \<^verbatim>\<open>profile.dimensions.items()\<close>. The dimensions are mutated in place, so
  the loop returns them as they are when it ends or raises, with the exception raised.
\<close>

fun apply_analysis ::
  "json \<Rightarrow> (string \<times> style_dimension) list \<Rightarrow> (string \<times> style_dimension) list \<times> py_error option"
where
  "apply_analysis analysis [] = ([], None)"
| "apply_analysis analysis ((dim_key, dimen) # rest) =
     (case py_contains analysis dim_key of
        Inl e \<Rightarrow> ((dim_key, dimen) # rest, Some e)
      | Inr False \<Rightarrow>
          (case apply_analysis analysis rest of
             (rest', err) \<Rightarrow> ((dim_key, dimen) # rest', err))
      | Inr True \<Rightarrow>
          (case py_getitem analysis dim_key of
             Inl e \<Rightarrow> ((dim_key, dimen) # rest, Some e)
           | Inr entry \<Rightarrow>
               (case apply_analysis analysis rest of
                  (rest', err) \<Rightarrow> ((dim_key, apply_entry entry dimen) # rest', err))))"

text \<open>
  \<^verbatim>\<open>analyze_edit\<close> from the reply on. \<open>decoded\<close> is the outcome of
  \<^verbatim>\<open>json.loads(response)\<close>, \<open>None\<close> when it raises JSONDecodeError; \<open>now\<close> is
  \<^verbatim>\<open>datetime.now()\<close>. The three exceptions of the \<^verbatim>\<open>except\<close> clause are caught and
  the profile is returned as the loop left it.
\<close>

definition analyze_edit :: "json option \<Rightarrow> nat \<Rightarrow> style_profile \<Rightarrow> style_profile" where
  "analyze_edit decoded now profile =
     (case decoded of
        None \<Rightarrow> profile
      | Some analysis \<Rightarrow>
          (case apply_analysis analysis (dimensions profile) of
             (dims, Some e) \<Rightarrow> profile\<lparr>dimensions := dims\<rparr>
           | (dims, None) \<Rightarrow>
               profile\<lparr>dimensions := dims,
                        edit_count := edit_count profile + 1,
                        last_updated := now\<rparr>))"

text \<open>Successive calls of \<^verbatim>\<open>analyze_edit\<close> on one profile, one reply and time each.\<close>

fun analyze_edits :: "(json option \<times> nat) list \<Rightarrow> style_profile \<Rightarrow> style_profile" where
  "analyze_edits [] profile = profile"
| "analyze_edits ((decoded, now) # later) profile =
     analyze_edits later (analyze_edit decoded now profile)"


section \<open>Strings of the Python run time\<close>

text \<open>
  A character is a code point below 256. \<open>is_space\<close> is \<^verbatim>\<open>str.isspace\<close> there: tab to
  carriage return, the four separators 28 to 31, the space, and the code points 133
  and 160. \<open>py_lower\<close> is \<^verbatim>\<open>str.lower\<close> there: the letters A to Z and the capital
  letters 192 to 222 (215, the multiplication sign, apart) move up by 32.
\<close>

definition is_space :: "char \<Rightarrow> bool" where
  "is_space c =
     (let n = (of_char c :: nat)
      in (9 \<le> n \<and> n \<le> 13) \<or> (28 \<le> n \<and> n \<le> 32) \<or> n = 133 \<or> n = 160)"



definition py_lstrip :: "string \<Rightarrow> string" where
  "py_lstrip s = dropWhile is_space s"

definition py_rstrip :: "string \<Rightarrow> string" where
  "py_rstrip s = rev (dropWhile is_space (rev s))"

definition py_strip :: "string \<Rightarrow> string" where
  "py_strip s = py_rstrip (py_lstrip s)"

text \<open>\<^verbatim>\<open>s.lstrip(chars)\<close>: the leading characters that occur in \<open>chars\<close> are removed.\<close>

definition lstrip_chars :: "string \<Rightarrow> string \<Rightarrow> string" where
  "lstrip_chars chars s = dropWhile (\<lambda>c. c \<in> set chars) s"

text \<open>\<^verbatim>\<open>s.split(sep)\<close> for a separator of one character; the result is never empty.\<close>

fun split_on_char :: "char \<Rightarrow> string \<Rightarrow> string list" where
  "split_on_char sep [] = [[]]"
| "split_on_char sep (c # cs) =
     (if c = sep then [] # split_on_char sep cs
      else (case split_on_char sep cs of
              [] \<Rightarrow> [[c]]
            | w # ws \<Rightarrow> (c # w) # ws))"

text \<open>\<^verbatim>\<open>sep.join(parts)\<close>.\<close>

fun py_join :: "string \<Rightarrow> string list \<Rightarrow> string" where
  "py_join sep [] = []"
| "py_join sep [x] = x"
| "py_join sep (x # y # ys) = x @ sep @ py_join sep (y # ys)"

text \<open>
  \<^verbatim>\<open>s.split()\<close>: the runs of characters that are not white space. \<open>cur\<close> is the run
  being read.
\<close>

fun split_ws :: "string \<Rightarrow> string \<Rightarrow> string list" where
  "split_ws cur [] = (if cur = [] then [] else [cur])"
| "split_ws cur (c # cs) =
     (if is_space c then (if cur = [] then split_ws [] cs else cur # split_ws [] cs)
      else split_ws (cur @ [c]) cs)"

definition py_split :: "string \<Rightarrow> string list" where
  "py_split s = split_ws [] s"

text \<open>
  What an f-string field shows of a value: a str is itself; for the other values
  \<open>text_of\<close> stands for Python's conversion to text.
\<close>

definition py_str :: "(json \<Rightarrow> string) \<Rightarrow> json \<Rightarrow> string" where
  "py_str text_of v = (case v of JStr s \<Rightarrow> s | _ \<Rightarrow> text_of v)"

section \<open>Prompt fragment (style/profile.py) and temperature (style/applier.py)\<close>

definition fragment_header :: string where
  "fragment_header = ''AUTHOR STYLE PREFERENCES (learned from previous edits):''"

text \<open>The loop of \<^verbatim>\<open>to_prompt_fragment\<close>, appending to \<open>lines\<close>.\<close>

fun fragment_loop :: "(json \<Rightarrow> string) \<Rightarrow> style_dimension list \<Rightarrow> string list \<Rightarrow> string list" where
  "fragment_loop text_of [] lines = lines"
| "fragment_loop text_of (dimen # rest) lines =
     (if confidence dimen > 2 / 10
      then (let lines1 = lines @ [''- '' @ name dimen @ '': '' @ py_str text_of (dvalue dimen)]
            in if examples dimen \<noteq> []
               then fragment_loop text_of rest
                      (lines1 @ [''  Example: '' @ [CHR 0x22]
                                 @ py_str text_of (last (examples dimen)) @ [CHR 0x22]])
               else fragment_loop text_of rest lines1)
      else fragment_loop text_of rest lines)"

definition fragment_lines :: "(json \<Rightarrow> string) \<Rightarrow> style_profile \<Rightarrow> string list" where
  "fragment_lines text_of profile =
     fragment_loop text_of (map snd (dimensions profile)) [fragment_header]"

definition to_prompt_fragment :: "(json \<Rightarrow> string) \<Rightarrow> style_profile \<Rightarrow> string" where
  "to_prompt_fragment text_of profile =
     (if edit_count profile = 0 then []
      else py_join [CHR 0x0A] (fragment_lines text_of profile))"


section \<open>Content generators (content/article.py, content/streams.py)\<close>

datatype content_type =
  MEDIUM_ARTICLE | BLOG_POST | PATIENT_CONVERSATION | ASK_A_NURSE | ASK_AN_ED_DOCTOR

fun content_type_value :: "content_type \<Rightarrow> string" where
  "content_type_value MEDIUM_ARTICLE = ''medium_article''"
| "content_type_value BLOG_POST = ''blog_post''"
| "content_type_value PATIENT_CONVERSATION = ''patient_conversation''"
| "content_type_value ASK_A_NURSE = ''ask_a_nurse''"
| "content_type_value ASK_AN_ED_DOCTOR = ''ask_an_ed_doctor''"

record content_request =
  topic :: string
  request_type :: content_type
  target_audience :: string
  target_word_count :: int
  key_points :: "string list option"
  tone :: "string option"
  references :: "string list option"

text \<open>
  \<^verbatim>\<open>GeneratedContent\<close>; of the metadata, the word count and the stream tag (the elapsed
  time and the token counters are left out).
\<close>

record generated_content =
  title :: string
  body :: string
  content_type :: content_type
  word_count :: nat
  stream_tag :: "string option"

text \<open>The two \<^verbatim>\<open>TEMPLATE_MAP\<close> tables; a missing key raises KeyError.\<close>

fun article_template :: "content_type \<Rightarrow> string option" where
  "article_template MEDIUM_ARTICLE = Some ''article_medium.j2''"
| "article_template BLOG_POST = Some ''article_blog.j2''"
| "article_template _ = None"

fun stream_template :: "content_type \<Rightarrow> string option" where
  "stream_template PATIENT_CONVERSATION = Some ''stream_patient.j2''"
| "stream_template ASK_A_NURSE = Some ''stream_nurse.j2''"
| "stream_template ASK_AN_ED_DOCTOR = Some ''stream_doctor.j2''"
| "stream_template _ = None"

text \<open>The three lines both generators parse the reply with.\<close>

definition reply_lines :: "string \<Rightarrow> string list" where
  "reply_lines response = split_on_char (CHR 0x0A) (py_strip response)"

definition reply_title :: "content_request \<Rightarrow> string \<Rightarrow> string" where
  "reply_title request response =
     (let lines = reply_lines response
      in if lines \<noteq> [] then py_strip (lstrip_chars ''# '' (hd lines)) else topic request)"

definition reply_body :: "string \<Rightarrow> string" where
  "reply_body response = py_strip (py_join [CHR 0x0A] (drop 1 (reply_lines response)))"

text \<open>
  \<^verbatim>\<open>generate\<close> of each generator, from the reply on: \<open>response\<close> is what the model
  client returned for the prompt.
\<close>

definition article_generate :: "content_request \<Rightarrow> string \<Rightarrow> py_error + generated_content" where
  "article_generate request response =
     (case article_template (request_type request) of
        None \<Rightarrow> Inl KeyError
      | Some template_name \<Rightarrow>
          Inr \<lparr>title = reply_title request response,
               body = reply_body response,
               content_type = request_type request,
               word_count = length (py_split (reply_body response)),
               stream_tag = None\<rparr>)"

definition stream_generate :: "content_request \<Rightarrow> string \<Rightarrow> py_error + generated_content" where
  "stream_generate request response =
     (case stream_template (request_type request) of
        None \<Rightarrow> Inl KeyError
      | Some template_name \<Rightarrow>
          Inr \<lparr>title = reply_title request response,
               body = reply_body response,
               content_type = request_type request,
               word_count = length (py_split (reply_body response)),
               stream_tag = Some (content_type_value (request_type request))\<rparr>)"

section \<open>Model client (llm/client.py)\<close>

text \<open>
  What a call of the provider's API can raise: \<^verbatim>\<open>AuthenticationError\<close>, another
  \<^verbatim>\<open>APIStatusError\<close> with its status code, or any other exception (a time-out, a
  connection failure).
\<close>

datatype api_exception = AuthenticationError | APIStatusError int | OtherException





text \<open>
  How a decorated call ends when it fails: the exception of the attempt propagates as it
  is (the retry predicate said no), or the attempts are used up and the retry library
  raises its \<^verbatim>\<open>RetryError\<close>, which carries the last attempt's exception.
\<close>

datatype call_failure = Raised api_exception | RetryError api_exception



section \<open>Conversation (llm/conversation.py)\<close>

record message =
  role :: string
  content :: string

text \<open>
  The two entry points of the client a conversation calls, as functions of the system
  prompt and the message list: the text, or the chunks of the streamed text.
\<close>

record model_client =
  client_generate :: "string \<Rightarrow> message list \<Rightarrow> call_failure + string"
  client_generate_streaming :: "string \<Rightarrow> message list \<Rightarrow> call_failure + string list"

record conversation =
  system_prompt :: string
  messages :: "message list"

text \<open>
  \<^verbatim>\<open>send\<close>: the result or the exception that propagates, with the conversation as the
  call leaves it.
\<close>

definition send ::
  "model_client \<Rightarrow> string \<Rightarrow> bool \<Rightarrow> conversation \<Rightarrow> (call_failure + string) \<times> conversation"
where
  "send client user_message streaming conv =
     (let conv1 = conv\<lparr>messages := messages conv @ [\<lparr>role = ''user'', content = user_message\<rparr>]\<rparr>;
          outcome =
            (if streaming
             then (case client_generate_streaming client (system_prompt conv1) (messages conv1) of
                     Inl exc \<Rightarrow> Inl exc
                   | Inr chunks \<Rightarrow> Inr (concat chunks))
             else client_generate client (system_prompt conv1) (messages conv1))
      in case outcome of
           Inl exc \<Rightarrow> (Inl exc, conv1)
         | Inr reply \<Rightarrow>
             (Inr reply,
              conv1\<lparr>messages := messages conv1
                        @ [\<lparr>role = ''assistant'', content = reply\<rparr>]\<rparr>))"

definition turn_count :: "conversation \<Rightarrow> nat" where
  "turn_count conv = length (messages conv) div 2"

section \<open>Research analyzer (research/analyzer.py)\<close>

record research_article =
  article_url :: string
  article_title :: string
  article_source :: string
  article_summary :: string
  article_full_text :: "string option"

text \<open>\<^verbatim>\<open>d[k] = v\<close> on a dict.\<close>

fun dict_set :: "string \<Rightarrow> json \<Rightarrow> (string \<times> json) list \<Rightarrow> (string \<times> json) list" where
  "dict_set k v [] = [(k, v)]"
| "dict_set k v ((k', v') # kvs) =
     (if k' = k then (k, v) # kvs else (k', v') # dict_set k v kvs)"

text \<open>
  \<^verbatim>\<open>analyze\<close> from the reply on; \<open>decoded\<close> is the outcome of
  \<^verbatim>\<open>json.loads(response)\<close>. Only JSONDecodeError is caught. Item assignment with a
  str key exists on a dict only: on every other value it raises TypeError.
\<close>

definition analyze ::
  "json option \<Rightarrow> string \<Rightarrow> research_article \<Rightarrow> py_error + (string \<times> json) list"
where
  "analyze decoded response article =
     (case decoded of
        None \<Rightarrow>
          Inr [(''title'', JStr (article_title article)),
               (''url'', JStr (article_url article)),
               (''relevance_score'', JInt 0),
               (''summary'', JStr (take 200 response)),
               (''relevant_focus_areas'', JArr []),
               (''content_angles'', JArr [])]
      | Some (JObj result) \<Rightarrow>
          Inr (dict_set ''url'' (JStr (article_url article))
                 (dict_set ''title'' (JStr (article_title article)) result))
      | Some _ \<Rightarrow> Inl TypeError)"

section \<open>Blog regeneration (cli.py)\<close>

record content_record =
  record_title :: string
  status :: string
  medium_url :: string
  teaser :: string

text \<open>What the template is rendered with: title, URL and teaser of each article.\<close>

record blog_article =
  card_title :: string
  card_url :: string
  card_teaser :: string

definition blog_start :: string where
  "blog_start = ''<!-- BLOG_START -->''"

definition blog_end :: string where
  "blog_end = ''<!-- BLOG_END -->''"

text \<open>The position of the first occurrence of a text in another.\<close>

fun find_first :: "string \<Rightarrow> string \<Rightarrow> nat option" where
  "find_first pat [] = (if pat = [] then Some 0 else None)"
| "find_first pat (c # cs) =
     (if is_prefix pat (c # cs) then Some 0 else map_option Suc (find_first pat cs))"

text \<open>
  The pattern \<^verbatim>\<open><!-- BLOG_START -->.*?<!-- BLOG_END -->\<close> with \<^verbatim>\<open>re.DOTALL\<close>, tried at
  the start of a text: the start marker, then as little as possible up to the first end
  marker. The result is the length of the match.
\<close>

definition match_at :: "string \<Rightarrow> nat option" where
  "match_at s =
     (if is_prefix blog_start s
      then (case find_first blog_end (drop (length blog_start) s) of
              None \<Rightarrow> None
            | Some j \<Rightarrow> Some (length blog_start + j + length blog_end))
      else None)"

text \<open>\<^verbatim>\<open>re.search\<close>: the pattern matches at some position.\<close>

fun re_search :: "string \<Rightarrow> bool" where
  "re_search [] = (match_at [] \<noteq> None)"
| "re_search (c # cs) = (match_at (c # cs) \<noteq> None \<or> re_search cs)"

text \<open>
  The replacement of \<^verbatim>\<open>re.sub\<close>, when it is a str, is a template: a backslash starts
  an escape. \<open>parse_escape\<close> reads what follows a backslash and returns the items it
  stands for and the number of characters read, or \<open>None\<close> for \<^verbatim>\<open>re.error\<close>. The
  pattern has no group, so \<^verbatim>\<open>\g<0>\<close> (the whole match) is the only group reference
  that exists; \<^verbatim>\<open>\0\<close> and three octal digits are a character code; the escapes
  of the table are one character; another ASCII letter is a bad escape; anything else
  stays as it is, with its backslash. (The group number is read as Python 3.12 reads
  it, decimal digits only; only the spelling of that number differs in older versions.)
\<close>

datatype template_item = Literal char | WholeMatch

definition is_octdigit :: "char \<Rightarrow> bool" where
  "is_octdigit c = (c \<in> set ''01234567'')"

definition is_digit :: "char \<Rightarrow> bool" where
  "is_digit c = (c \<in> set ''0123456789'')"

definition is_ascii_letter :: "char \<Rightarrow> bool" where
  "is_ascii_letter c =
     (let n = (of_char c :: nat) in (65 \<le> n \<and> n \<le> 90) \<or> (97 \<le> n \<and> n \<le> 122))"

definition digit_value :: "char \<Rightarrow> nat" where
  "digit_value c = of_char c - 48"

definition escape_char :: "char \<Rightarrow> char option" where
  "escape_char c =
     (if c = CHR ''a'' then Some (CHR 0x07)
      else if c = CHR ''b'' then Some (CHR 0x08)
      else if c = CHR ''f'' then Some (CHR 0x0C)
      else if c = CHR ''n'' then Some (CHR 0x0A)
      else if c = CHR ''r'' then Some (CHR 0x0D)
      else if c = CHR ''t'' then Some (CHR 0x09)
      else if c = CHR ''v'' then Some (CHR 0x0B)
      else if c = CHR 0x5C then Some (CHR 0x5C)
      else None)"

definition parse_escape :: "string \<Rightarrow> (template_item list \<times> nat) option" where
  "parse_escape rest =
     (case rest of
        [] \<Rightarrow> None
      | c # r \<Rightarrow>
          if c = CHR ''g'' then
            (case r of
               [] \<Rightarrow> None
             | lt # r1 \<Rightarrow>
                 (let group_name = takeWhile (\<lambda>x. x \<noteq> CHR ''>'') r1
                  in if lt \<noteq> CHR ''<'' \<or> length group_name = length r1 \<or> group_name = []
                     then None
                     else if list_all (\<lambda>x. x = CHR ''0'') group_name
                     then Some ([WholeMatch], length group_name + 3)
                     else None))
          else if c = CHR ''0'' then
            (case r of
               [] \<Rightarrow> Some ([Literal (CHR 0x00)], 1)
             | o1 # r1 \<Rightarrow>
                 if is_octdigit o1 then
                   (case r1 of
                      [] \<Rightarrow> Some ([Literal (char_of (digit_value o1))], 2)
                    | o2 # r2 \<Rightarrow>
                        if is_octdigit o2
                        then Some ([Literal (char_of (8 * digit_value o1 + digit_value o2))], 3)
                        else Some ([Literal (char_of (digit_value o1))], 2))
                 else Some ([Literal (CHR 0x00)], 1))
          else if is_digit c then
            (case r of
               d2 # d3 # r2 \<Rightarrow>
                 if is_octdigit c \<and> is_octdigit d2 \<and> is_octdigit d3
                 then (let code = 64 * digit_value c + 8 * digit_value d2 + digit_value d3
                       in if code > 255 then None else Some ([Literal (char_of code)], 3))
                 else None
             | _ \<Rightarrow> None)
          else
            (case escape_char c of
               Some e \<Rightarrow> Some ([Literal e], 1)
             | None \<Rightarrow>
                 if is_ascii_letter c then None
                 else Some ([Literal (CHR 0x5C), Literal c], 1)))"

function parse_template :: "string \<Rightarrow> template_item list option" where
  "parse_template [] = Some []"
| "parse_template (c # rest) =
     (if c \<noteq> CHR 0x5C then map_option ((#) (Literal c)) (parse_template rest)
      else (case parse_escape rest of
              None \<Rightarrow> None
            | Some (items, n) \<Rightarrow> map_option ((@) items) (parse_template (drop n rest))))"
  by pat_completeness auto
termination
  by (relation "measure length") auto

fun expand_template :: "template_item list \<Rightarrow> string \<Rightarrow> string" where
  "expand_template [] matched = []"
| "expand_template (Literal c # items) matched = c # expand_template items matched"
| "expand_template (WholeMatch # items) matched = matched @ expand_template items matched"

text \<open>
  The scan of \<^verbatim>\<open>re.sub\<close>: at each position the pattern is tried; a match is replaced
  by the expanded template and the scan goes on behind it (\<open>skip\<close> counts the matched
  characters still to pass).
\<close>

fun sub_scan :: "template_item list \<Rightarrow> nat \<Rightarrow> string \<Rightarrow> string" where
  "sub_scan items skip [] = []"
| "sub_scan items (Suc skip) (c # cs) = sub_scan items skip cs"
| "sub_scan items 0 (c # cs) =
     (case match_at (c # cs) of
        None \<Rightarrow> c # sub_scan items 0 cs
      | Some n \<Rightarrow> expand_template items (take n (c # cs)) @ sub_scan items (n - 1) cs)"

definition re_sub :: "string \<Rightarrow> string \<Rightarrow> string option" where
  "re_sub repl s =
     (case parse_template repl of
        None \<Rightarrow> None
      | Some items \<Rightarrow> Some (sub_scan items 0 s))"

datatype console_message = IndexNotFound | MarkersNotFound | BlogUpdated nat

text \<open>
  \<^verbatim>\<open>_regenerate_blog\<close>. \<open>render\<close> is the template \<^verbatim>\<open>blog_section.html.j2\<close>,
  \<open>records\<close> the rows of the database, \<open>index\<close> the text of \<^verbatim>\<open>index.html\<close> if the
  file exists. The result is the file afterwards, what was printed, and whether
  \<^verbatim>\<open>re.error\<close> was raised (before anything is written).
\<close>

definition regenerate_blog ::
  "(blog_article list \<Rightarrow> string) \<Rightarrow> content_record list \<Rightarrow> string option
     \<Rightarrow> string option \<times> console_message list \<times> bool"
where
  "regenerate_blog render records index =
     (case index of
        None \<Rightarrow> (None, [IndexNotFound], False)
      | Some html \<Rightarrow>
          (let published = filter (\<lambda>a. status a = ''published'' \<and> medium_url a \<noteq> []) records;
               articles = map (\<lambda>a. \<lparr>card_title = record_title a, card_url = medium_url a,
                                      card_teaser = teaser a\<rparr>) published;
               blog_html = render articles
           in if re_search html
              then (case re_sub blog_html html of
                      None \<Rightarrow> (Some html, [], True)
                    | Some html' \<Rightarrow> (Some html', [BlogUpdated (length articles)], False))
              else (Some html, [MarkersNotFound], False)))"

section \<open>Notions of the specification\<close>

text \<open>
  Spec side: the lines one dimension contributes to the prompt fragment, its name and
  value and, when it has examples, the most recent one.
\<close>

definition spec_dimension_lines :: "(json \<Rightarrow> string) \<Rightarrow> style_dimension \<Rightarrow> string list" where
  "spec_dimension_lines text_of d =
     (''- '' @ name d @ '': '' @ py_str text_of (dvalue d))
     # (if examples d = [] then []
        else [''  Example: '' @ [CHR 0x22] @ py_str text_of (last (examples d)) @ [CHR 0x22]])"


text \<open>
  Spec side: the number of white-space-delimited tokens of a text, counted as the
  characters that begin one: a character that is not white space, at the start of the
  text or right after white space.
\<close>

fun token_starts :: "bool \<Rightarrow> string \<Rightarrow> nat" where
  "token_starts after_space [] = 0"
| "token_starts after_space (c # cs) =
     (if \<not> is_space c \<and> after_space then 1 else 0) + token_starts (is_space c) cs"

definition spec_token_count :: "string \<Rightarrow> nat" where
  "spec_token_count s = token_starts True s"

text \<open>Spec side: no two successive messages of a log have the same role.\<close>

fun alternating :: "message list \<Rightarrow> bool" where
  "alternating [] = True"
| "alternating [m] = True"
| "alternating (m # n # ms) = (role m \<noteq> role n \<and> alternating (n # ms))"


section \<open>Properties of the style analyzer\<close>

subsection \<open>What the loop does\<close>

lemma apply_analysis_object:
  "apply_analysis (JObj kvs) dims =
     (map (\<lambda>(k, d). (k, case map_of kvs k of None \<Rightarrow> d | Some e \<Rightarrow> apply_entry e d)) dims,
      None)"
  by (induction dims) (auto split: option.splits)

lemma apply_analysis_not_object:
  "\<forall>kvs. analysis \<noteq> JObj kvs \<Longrightarrow> fst (apply_analysis analysis dims) = dims"
  by (induction dims) (cases analysis; auto split: sum.splits bool.splits prod.splits)+

lemma apply_analysis_raises:
  assumes "apply_analysis analysis dims = (dims', Some e)"
  shows "dims' = dims"
proof (cases "\<exists>kvs. analysis = JObj kvs")
  case True
  with assms show ?thesis by (auto simp: apply_analysis_object)
next
  case False
  with assms apply_analysis_not_object [of analysis dims] show ?thesis by auto
qed

text \<open>
  A reply that fails to decode, or on which the loop raises, leaves the whole profile as
  it was: the loop never raises after it has changed a dimension.
\<close>

lemma analyze_edit_failed_noop:
  "decoded = None \<or> (\<exists>a e. decoded = Some a \<and> snd (apply_analysis a (dimensions p)) = Some e)
   \<Longrightarrow> analyze_edit decoded now p = p"
  by (auto simp: analyze_edit_def split: prod.splits option.splits dest: apply_analysis_raises)

lemma analyze_edit_dimensions:
  "dimensions (analyze_edit decoded now p) =
     (case decoded of
        Some (JObj kvs) \<Rightarrow>
          map (\<lambda>(k, d). (k, case map_of kvs k of None \<Rightarrow> d | Some e \<Rightarrow> apply_entry e d))
            (dimensions p)
      | _ \<Rightarrow> dimensions p)"
proof (cases decoded)
  case None
  then show ?thesis by (simp add: analyze_edit_def)
next
  case (Some a)
  show ?thesis
  proof (cases "\<exists>kvs. a = JObj kvs")
    case True
    with Some show ?thesis by (auto simp: analyze_edit_def apply_analysis_object)
  next
    case False
    with apply_analysis_not_object [of a "dimensions p"]
    have "fst (apply_analysis a (dimensions p)) = dimensions p" by simp
    with Some False show ?thesis
      by (cases a; cases "apply_analysis a (dimensions p)")
        (auto simp: analyze_edit_def split: option.splits)
  qed
qed

lemma analyze_edit_length:
  "length (dimensions (analyze_edit decoded now p)) = length (dimensions p)"
  by (simp add: analyze_edit_dimensions split: option.splits json.splits)

lemma analyze_edit_nth:
  "i < length (dimensions p) \<Longrightarrow>
   dimensions (analyze_edit decoded now p) ! i =
     (fst (dimensions p ! i),
      case decoded of
        Some (JObj kvs) \<Rightarrow>
          (case map_of kvs (fst (dimensions p ! i)) of
             None \<Rightarrow> snd (dimensions p ! i)
           | Some e \<Rightarrow> apply_entry e (snd (dimensions p ! i)))
      | _ \<Rightarrow> snd (dimensions p ! i))"
  by (auto simp: analyze_edit_dimensions split: option.splits json.splits prod.splits)

lemma confidence_apply_entry:
  "confidence (apply_entry e d) =
     (case e of JObj kvs \<Rightarrow> min 1 (confidence d + 15 / 100) | _ \<Rightarrow> confidence d)"
  by (cases e) (auto simp: apply_entry_def update_dimension_def Let_def split: option.splits)

lemma examples_apply_entry:
  "examples (apply_entry e d) =
     (case e of
        JObj kvs \<Rightarrow>
          (case map_of kvs ''example'' of
             None \<Rightarrow> examples d
           | Some ex \<Rightarrow> last5 (examples d @ [ex]))
      | _ \<Rightarrow> examples d)"
  by (cases e) (auto simp: apply_entry_def update_dimension_def Let_def split: option.splits)

lemma last5_snoc: "last5 (xs @ [x]) = drop (length xs - 4) xs @ [x]"
  by (simp add: last5_def)

lemma length_last5: "length (last5 xs) \<le> 5"
  by (simp add: last5_def)

subsection \<open>One call and many calls\<close>

lemma analyze_edit_confidence_step:
  assumes "i < length (dimensions p)" and "confidence (snd (dimensions p ! i)) \<le> 1"
  shows "confidence (snd (dimensions p ! i))
           \<le> confidence (snd (dimensions (analyze_edit decoded now p) ! i))
       \<and> confidence (snd (dimensions (analyze_edit decoded now p) ! i)) \<le> 1"
  using assms
  by (auto simp: analyze_edit_nth confidence_apply_entry split: option.splits json.splits)

lemma analyze_edit_examples_step:
  assumes "i < length (dimensions p)" and "length (examples (snd (dimensions p ! i))) \<le> 5"
  shows "length (examples (snd (dimensions (analyze_edit decoded now p) ! i))) \<le> 5"
  using assms
  by (auto simp: analyze_edit_nth examples_apply_entry length_last5
      split: option.splits json.splits)

lemma analyze_edits_length:
  "length (dimensions (analyze_edits rs p)) = length (dimensions p)"
  by (induction rs p rule: analyze_edits.induct) (simp_all add: analyze_edit_length)

lemma analyze_edits_key:
  "i < length (dimensions p) \<Longrightarrow>
   fst (dimensions (analyze_edits rs p) ! i) = fst (dimensions p ! i)"
  by (induction rs p rule: analyze_edits.induct)
    (simp_all add: analyze_edit_length analyze_edit_nth)

lemma analyze_edits_confidence:
  "i < length (dimensions p) \<Longrightarrow> confidence (snd (dimensions p ! i)) \<le> 1 \<Longrightarrow>
   confidence (snd (dimensions p ! i)) \<le> confidence (snd (dimensions (analyze_edits rs p) ! i))
   \<and> confidence (snd (dimensions (analyze_edits rs p) ! i)) \<le> 1"
proof (induction rs p rule: analyze_edits.induct)
  case (1 p)
  then show ?case by simp
next
  case (2 decoded now later p)
  let ?q = "analyze_edit decoded now p"
  from 2(2,3) have step:
    "confidence (snd (dimensions p ! i)) \<le> confidence (snd (dimensions ?q ! i))"
    "confidence (snd (dimensions ?q ! i)) \<le> 1"
    using analyze_edit_confidence_step [of i p decoded now] by simp_all
  from 2(2) have "i < length (dimensions ?q)" by (simp add: analyze_edit_length)
  from 2(1) [OF this step(2)] step(1) show ?case by simp
qed

lemma analyze_edits_examples:
  "i < length (dimensions p) \<Longrightarrow> length (examples (snd (dimensions p ! i))) \<le> 5 \<Longrightarrow>
   length (examples (snd (dimensions (analyze_edits rs p) ! i))) \<le> 5"
proof (induction rs p rule: analyze_edits.induct)
  case (1 p)
  then show ?case by simp
next
  case (2 decoded now later p)
  let ?q = "analyze_edit decoded now p"
  from 2(2) have "i < length (dimensions ?q)" by (simp add: analyze_edit_length)
  moreover from 2(2,3) have "length (examples (snd (dimensions ?q ! i))) \<le> 5"
    by (rule analyze_edit_examples_step)
  ultimately show ?case using 2(1) by simp
qed

subsection \<open>Invariants from the default profile\<close>

lemma analyze_edit_list_all:
  assumes step: "\<And>d e. P d \<Longrightarrow> P (apply_entry e d)"
    and inv: "list_all (\<lambda>(k, d). P d) (dimensions p)"
  shows "list_all (\<lambda>(k, d). P d) (dimensions (analyze_edit decoded now p))"
  using inv step
  by (auto simp: analyze_edit_dimensions list_all_iff split: option.splits json.splits)

lemma analyze_edits_list_all:
  assumes step: "\<And>d e. P d \<Longrightarrow> P (apply_entry e d)"
  shows "list_all (\<lambda>(k, d). P d) (dimensions p) \<Longrightarrow>
         list_all (\<lambda>(k, d). P d) (dimensions (analyze_edits rs p))"
proof (induction rs p rule: analyze_edits.induct)
  case (1 p)
  then show ?case by simp
next
  case (2 decoded now later p)
  from step 2(2) have "list_all (\<lambda>(k, d). P d) (dimensions (analyze_edit decoded now p))"
    by (rule analyze_edit_list_all)
  with 2(1) show ?case by simp
qed

lemma default_profile_confidence_range:
  "list_all (\<lambda>(k, d). 0 \<le> confidence d \<and> confidence d \<le> 1)
     (dimensions (analyze_edits rs (default_profile t)))"
proof (rule analyze_edits_list_all)
  fix d :: style_dimension and e
  assume "0 \<le> confidence d \<and> confidence d \<le> 1"
  then show "0 \<le> confidence (apply_entry e d) \<and> confidence (apply_entry e d) \<le> 1"
    by (cases e) (auto simp: confidence_apply_entry)
next
  show "list_all (\<lambda>(k, d). 0 \<le> confidence d \<and> confidence d \<le> 1)
          (dimensions (default_profile t))"
    by (simp add: default_profile_def new_dimension_def)
qed

lemma default_profile_examples_bound:
  "list_all (\<lambda>(k, d). length (examples d) \<le> 5)
     (dimensions (analyze_edits rs (default_profile t)))"
proof (rule analyze_edits_list_all)
  fix d :: style_dimension and e
  assume "length (examples d) \<le> 5"
  then show "length (examples (apply_entry e d)) \<le> 5"
    by (cases e) (auto simp: examples_apply_entry length_last5 split: option.splits)
next
  show "list_all (\<lambda>(k, d). length (examples d) \<le> 5) (dimensions (default_profile t))"
    by (simp add: default_profile_def new_dimension_def)
qed

text \<open>
  Claim C1: a reply that cannot be parsed as the expected structure, an object keyed by
  dimension, must leave the profile unmodified and must not increment \<open>edit_count\<close>.
  The reply \<^verbatim>\<open>[]\<close> is valid JSON but an array, not such an object. The loop finds no
  dimension key in it, raises nothing, and the call on the default profile returns the
  profile with \<open>edit_count\<close> 1 and a new time stamp: the failed attempt is counted.
\<close>

theorem analyze_edit_array_reply_counted:
  "analyze_edit (Some (JArr [])) 1 (default_profile 0) =
     (default_profile 0)\<lparr>edit_count := 1, last_updated := 1\<rparr>
   \<and> edit_count (default_profile 0) = 0"
  by (simp add: analyze_edit_def default_profile_def)

text \<open>
  Claim C2: when \<^verbatim>\<open>analyze_edit\<close> applies the entry of a parsed reply to the dimension
  stored under key \<open>k\<close> at position \<open>i\<close>, the new confidence is
  \<open>min 1 (old + 0.15)\<close>. Over any sequence of calls, whatever the replies, the dimension
  stays at its position under its key, and a confidence that starts at most 1 never
  decreases and never exceeds 1. In every profile reached from the default profile by
  such calls, each confidence lies between 0 and 1.
\<close>

theorem analyze_edit_confidence:
  assumes "i < length (dimensions p)" and "dimensions p ! i = (k, d)"
  shows "(\<forall>kvs entry. map_of kvs k = Some (JObj entry) \<longrightarrow>
            dimensions (analyze_edit (Some (JObj kvs)) now p) ! i =
              (k, update_dimension entry d)
            \<and> confidence (update_dimension entry d) = min 1 (confidence d + 15 / 100))
       \<and> length (dimensions (analyze_edits rs p)) = length (dimensions p)
       \<and> fst (dimensions (analyze_edits rs p) ! i) = k
       \<and> (confidence d \<le> 1 \<longrightarrow>
            confidence d \<le> confidence (snd (dimensions (analyze_edits rs p) ! i))
            \<and> confidence (snd (dimensions (analyze_edits rs p) ! i)) \<le> 1)
       \<and> list_all (\<lambda>(k, d). 0 \<le> confidence d \<and> confidence d \<le> 1)
            (dimensions (analyze_edits rs (default_profile t)))"
proof -
  have one: "dimensions (analyze_edit (Some (JObj kvs)) now p) ! i = (k, update_dimension entry d)
        \<and> confidence (update_dimension entry d) = min 1 (confidence d + 15 / 100)"
    if "map_of kvs k = Some (JObj entry)" for kvs entry
    using that assms confidence_apply_entry [of "JObj entry" d]
    by (simp add: analyze_edit_nth apply_entry_def)
  have many: "confidence d \<le> 1 \<Longrightarrow>
      confidence d \<le> confidence (snd (dimensions (analyze_edits rs p) ! i))
      \<and> confidence (snd (dimensions (analyze_edits rs p) ! i)) \<le> 1"
    using analyze_edits_confidence [of i p rs] assms by simp
  from one many analyze_edits_length [of rs p] analyze_edits_key [of i p rs] assms
    default_profile_confidence_range [of rs t]
  show ?thesis by simp
qed

theorem analyze_edit_confidence_witness:
  "1 < length (dimensions (default_profile 0))
   \<and> dimensions (default_profile 0) ! 1 =
       (''formality'', new_dimension ''Formality'' ''Formal/academic vs. conversational tone''
          ''professional but accessible'')
   \<and> map_of [(''formality'', JObj [(''preference'', JStr ''casual and direct'')])] ''formality''
       = Some (JObj [(''preference'', JStr ''casual and direct'')])
   \<and> confidence (new_dimension ''Formality'' ''Formal/academic vs. conversational tone''
          ''professional but accessible'') \<le> 1
   \<and> confidence (snd (dimensions (analyze_edit
         (Some (JObj [(''formality'', JObj [(''preference'', JStr ''casual and direct'')])]))
         1 (default_profile 0)) ! 1)) = 15 / 100
   \<and> confidence (snd (dimensions (analyze_edits
         [(Some (JObj [(''formality'', JObj [(''preference'', JStr ''casual and direct'')])]), 1),
          (None, 2)]
         (default_profile 0)) ! 1)) \<le> 1"
proof -
  let ?d = "new_dimension ''Formality'' ''Formal/academic vs. conversational tone''
          ''professional but accessible''"
  let ?e = "[(''preference'', JStr ''casual and direct'')]"
  let ?kvs = "[(''formality'', JObj ?e)]"
  have h1: "1 < length (dimensions (default_profile 0))" by (simp add: default_profile_def)
  have h2: "dimensions (default_profile 0) ! 1 = (''formality'', ?d)"
    by (simp add: default_profile_def)
  have h3: "map_of ?kvs ''formality'' = Some (JObj ?e)" by simp
  have h4: "confidence ?d \<le> 1" by (simp add: new_dimension_def)
  note t = analyze_edit_confidence [OF h1 h2, of 1 "[(Some (JObj ?kvs), 1), (None, 2)]"]
  from t h3 have
    "dimensions (analyze_edit (Some (JObj ?kvs)) 1 (default_profile 0)) ! 1 =
       (''formality'', update_dimension ?e ?d)"
    "confidence (update_dimension ?e ?d) = min 1 (confidence ?d + 15 / 100)" by blast+
  moreover from t h4 have "confidence (snd (dimensions (analyze_edits
         [(Some (JObj ?kvs), 1), (None, 2)] (default_profile 0)) ! 1)) \<le> 1" by blast
  ultimately show ?thesis using h1 h2 h3 h4 by (simp add: new_dimension_def)
qed

text \<open>
  Claim C5: when the applied entry carries an example, the dimension's new examples are
  the old ones cut to their last four, in their order, followed by the new example: at
  most five, the most recent last, and with five old examples exactly the oldest one is
  dropped. Over any sequence of calls, whatever the replies, a list of at most five
  examples stays at most five long, and in every profile reached from the default
  profile by such calls each dimension has at most five examples.
\<close>

theorem analyze_edit_examples:
  assumes "i < length (dimensions p)" and "dimensions p ! i = (k, d)"
  shows "(\<forall>kvs entry ex.
            map_of kvs k = Some (JObj entry) \<and> map_of entry ''example'' = Some ex \<longrightarrow>
            examples (snd (dimensions (analyze_edit (Some (JObj kvs)) now p) ! i)) =
              drop (length (examples d) - 4) (examples d) @ [ex]
            \<and> length (drop (length (examples d) - 4) (examples d) @ [ex]) \<le> 5
            \<and> (length (examples d) = 5 \<longrightarrow>
                 drop (length (examples d) - 4) (examples d) @ [ex] = tl (examples d) @ [ex]))
       \<and> (length (examples d) \<le> 5 \<longrightarrow>
            length (examples (snd (dimensions (analyze_edits rs p) ! i))) \<le> 5)
       \<and> list_all (\<lambda>(k, d). length (examples d) \<le> 5)
            (dimensions (analyze_edits rs (default_profile t)))"
proof -
  have one: "examples (snd (dimensions (analyze_edit (Some (JObj kvs)) now p) ! i)) =
              drop (length (examples d) - 4) (examples d) @ [ex]"
    if "map_of kvs k = Some (JObj entry)" "map_of entry ''example'' = Some ex" for kvs entry ex
    using that assms examples_apply_entry [of "JObj entry" d]
    by (simp add: analyze_edit_nth last5_snoc)
  have evict: "drop (length xs - 4) xs = tl xs" if "length xs = 5" for xs :: "json list"
    using that by (cases xs) simp_all
  have many: "length (examples d) \<le> 5 \<Longrightarrow>
      length (examples (snd (dimensions (analyze_edits rs p) ! i))) \<le> 5"
    using analyze_edits_examples [of i p rs] assms by simp
  from one evict many have "(\<forall>kvs entry ex.
            map_of kvs k = Some (JObj entry) \<and> map_of entry ''example'' = Some ex \<longrightarrow>
            examples (snd (dimensions (analyze_edit (Some (JObj kvs)) now p) ! i)) =
              drop (length (examples d) - 4) (examples d) @ [ex]
            \<and> length (drop (length (examples d) - 4) (examples d) @ [ex]) \<le> 5
            \<and> (length (examples d) = 5 \<longrightarrow>
                 drop (length (examples d) - 4) (examples d) @ [ex] = tl (examples d) @ [ex]))
       \<and> (length (examples d) \<le> 5 \<longrightarrow>
            length (examples (snd (dimensions (analyze_edits rs p) ! i))) \<le> 5)" by auto
  with default_profile_examples_bound [of rs t] show ?thesis by blast
qed

theorem analyze_edit_examples_witness:
  "examples (snd (dimensions (analyze_edit
       (Some (JObj [(''humor'', JObj [(''example'', JStr ''six'')])])) 1
       \<lparr>user_id = ''default'',
        dimensions =
          [(''humor'',
            \<lparr>name = ''Humor Usage'', description = ''Frequency and type of humor'',
             dvalue = JStr ''dry'', confidence = 75 / 100,
             examples = [JStr ''one'', JStr ''two'', JStr ''three'', JStr ''four'',
                         JStr ''five'']\<rparr>)],
        edit_count = 5, last_updated = 0\<rparr>) ! 0)) =
     [JStr ''two'', JStr ''three'', JStr ''four'', JStr ''five'', JStr ''six'']
   \<and> length (examples (snd (dimensions (analyze_edits
       [(Some (JObj [(''humor'', JObj [(''example'', JStr ''six'')])]), 1), (None, 2)]
       \<lparr>user_id = ''default'',
        dimensions =
          [(''humor'',
            \<lparr>name = ''Humor Usage'', description = ''Frequency and type of humor'',
             dvalue = JStr ''dry'', confidence = 75 / 100,
             examples = [JStr ''one'', JStr ''two'', JStr ''three'', JStr ''four'',
                         JStr ''five'']\<rparr>)],
        edit_count = 5, last_updated = 0\<rparr>) ! 0))) \<le> 5"
proof -
  let ?d = "\<lparr>name = ''Humor Usage'', description = ''Frequency and type of humor'',
             dvalue = JStr ''dry'', confidence = 75 / 100,
             examples = [JStr ''one'', JStr ''two'', JStr ''three'', JStr ''four'',
                         JStr ''five'']\<rparr>"
  let ?p = "\<lparr>user_id = ''default'', dimensions = [(''humor'', ?d)],
        edit_count = 5, last_updated = (0::nat)\<rparr>"
  let ?e = "[(''example'', JStr ''six'')]"
  let ?kvs = "[(''humor'', JObj ?e)]"
  have h1: "0 < length (dimensions ?p)" by simp
  have h2: "dimensions ?p ! 0 = (''humor'', ?d)" by simp
  have h3: "map_of ?kvs ''humor'' = Some (JObj ?e)
      \<and> map_of ?e ''example'' = Some (JStr ''six'')" by simp
  have h4: "length (examples ?d) \<le> 5" by simp
  note t = analyze_edit_examples [OF h1 h2, of 1 "[(Some (JObj ?kvs), 1), (None, 2)]"]
  from t h3 have
    "examples (snd (dimensions (analyze_edit (Some (JObj ?kvs)) 1 ?p) ! 0)) =
       drop (length (examples ?d) - 4) (examples ?d) @ [JStr ''six'']" by blast
  then have a: "examples (snd (dimensions (analyze_edit (Some (JObj ?kvs)) 1 ?p) ! 0)) =
       [JStr ''two'', JStr ''three'', JStr ''four'', JStr ''five'', JStr ''six'']" by simp
  from t h4 have b: "length (examples (snd (dimensions (analyze_edits
         [(Some (JObj ?kvs), 1), (None, 2)] ?p) ! 0))) \<le> 5" by blast
  from a b show ?thesis by (rule conjI)
qed

section \<open>Properties of the prompt fragment and the temperature\<close>

lemma fragment_loop_eq:
  "fragment_loop text_of ds lines =
     lines @ concat (map (spec_dimension_lines text_of) (filter (\<lambda>d. confidence d > 2 / 10) ds))"
  by (induction ds arbitrary: lines) (simp_all add: spec_dimension_lines_def Let_def)

lemma py_join_nonempty: "x \<noteq> [] \<Longrightarrow> py_join sep (x # xs) \<noteq> []"
  by (cases xs) simp_all

lemma fragment_lines_eq:
  "fragment_lines text_of p =
     fragment_header # concat (map (spec_dimension_lines text_of)
        (filter (\<lambda>d. confidence d > 2 / 10) (map snd (dimensions p))))"
  by (simp add: fragment_lines_def fragment_loop_eq)

text \<open>
  Claim C3, as amended: \<^verbatim>\<open>to_prompt_fragment\<close> returns the empty text if and only if
  \<open>edit_count\<close> is 0. Otherwise it returns the emitted lines joined by newlines, and
  these are the fixed header line followed, in the order of the dimensions, by the lines
  of exactly the dimensions whose confidence exceeds 0.2 (the name and value, then the
  most recent example if there is one): every line after the header comes from such a
  dimension, each such dimension has its lines there, and a dimension with confidence at
  or below 0.2 contributes nothing.
\<close>

theorem to_prompt_fragment_lines:
  "(to_prompt_fragment text_of p = [] \<longleftrightarrow> edit_count p = 0)
   \<and> fragment_lines text_of p =
       fragment_header # concat (map (spec_dimension_lines text_of)
          (filter (\<lambda>d. confidence d > 2 / 10) (map snd (dimensions p))))
   \<and> (edit_count p \<noteq> 0 \<longrightarrow>
         to_prompt_fragment text_of p = py_join [CHR 0x0A] (fragment_lines text_of p))
   \<and> (\<forall>l \<in> set (tl (fragment_lines text_of p)).
         \<exists>d \<in> set (map snd (dimensions p)).
           confidence d > 2 / 10 \<and> l \<in> set (spec_dimension_lines text_of d))
   \<and> (\<forall>d \<in> set (map snd (dimensions p)). confidence d > 2 / 10 \<longrightarrow>
         set (spec_dimension_lines text_of d) \<subseteq> set (tl (fragment_lines text_of p)))"
proof -
  have "fragment_header \<noteq> []" by (simp add: fragment_header_def)
  then have "py_join [CHR 0x0A] (fragment_lines text_of p) \<noteq> []"
    by (simp add: fragment_lines_eq py_join_nonempty)
  then have a: "to_prompt_fragment text_of p = [] \<longleftrightarrow> edit_count p = 0"
    by (simp add: to_prompt_fragment_def)
  have b: "edit_count p \<noteq> 0 \<longrightarrow>
      to_prompt_fragment text_of p = py_join [CHR 0x0A] (fragment_lines text_of p)"
    by (simp add: to_prompt_fragment_def)
  have c: "\<forall>l \<in> set (tl (fragment_lines text_of p)).
         \<exists>d \<in> set (map snd (dimensions p)).
           confidence d > 2 / 10 \<and> l \<in> set (spec_dimension_lines text_of d)"
    by (auto simp: fragment_lines_eq)
  have d: "\<forall>d \<in> set (map snd (dimensions p)). confidence d > 2 / 10 \<longrightarrow>
         set (spec_dimension_lines text_of d) \<subseteq> set (tl (fragment_lines text_of p))"
    by (auto simp: fragment_lines_eq)
  from a b c d fragment_lines_eq show ?thesis by blast
qed

theorem to_prompt_fragment_lines_witness:
  "edit_count \<lparr>user_id = ''default'',
        dimensions =
          [(''formality'',
            \<lparr>name = ''Formality'', description = ''Formal/academic vs. conversational tone'',
             dvalue = JStr ''casual and direct'', confidence = 5 / 10,
             examples = [JStr ''Here is what happened'']\<rparr>),
           (''humor'', new_dimension ''Humor Usage'' ''Frequency and type of humor''
              ''not yet determined'')],
        edit_count = 5, last_updated = 0\<rparr> \<noteq> 0
   \<and> to_prompt_fragment (\<lambda>v. [])
       \<lparr>user_id = ''default'',
        dimensions =
          [(''formality'',
            \<lparr>name = ''Formality'', description = ''Formal/academic vs. conversational tone'',
             dvalue = JStr ''casual and direct'', confidence = 5 / 10,
             examples = [JStr ''Here is what happened'']\<rparr>),
           (''humor'', new_dimension ''Humor Usage'' ''Frequency and type of humor''
              ''not yet determined'')],
        edit_count = 5, last_updated = 0\<rparr> =
     ''AUTHOR STYLE PREFERENCES (learned from previous edits):\<newline>- Formality: casual and direct\<newline>  Example: ''
       @ [CHR 0x22] @ ''Here is what happened'' @ [CHR 0x22]"
proof -
  let ?p = "\<lparr>user_id = ''default'',
        dimensions =
          [(''formality'',
            \<lparr>name = ''Formality'', description = ''Formal/academic vs. conversational tone'',
             dvalue = JStr ''casual and direct'', confidence = 5 / 10,
             examples = [JStr ''Here is what happened'']\<rparr>),
           (''humor'', new_dimension ''Humor Usage'' ''Frequency and type of humor''
              ''not yet determined'')],
        edit_count = 5, last_updated = (0::nat)\<rparr>"
  have h: "edit_count ?p \<noteq> 0" by simp
  note t = to_prompt_fragment_lines [of "\<lambda>v. []" ?p]
  from t h have
    "to_prompt_fragment (\<lambda>v. []) ?p = py_join [CHR 0x0A] (fragment_lines (\<lambda>v. []) ?p)"
    by blast
  moreover from t have "fragment_lines (\<lambda>v. []) ?p =
       fragment_header # concat (map (spec_dimension_lines (\<lambda>v. []))
          (filter (\<lambda>d. confidence d > 2 / 10) (map snd (dimensions ?p))))" by blast
  ultimately have "to_prompt_fragment (\<lambda>v. []) ?p =
     ''AUTHOR STYLE PREFERENCES (learned from previous edits):\<newline>- Formality: casual and direct\<newline>  Example: ''
       @ [CHR 0x22] @ ''Here is what happened'' @ [CHR 0x22]"
    by (simp add: fragment_header_def spec_dimension_lines_def new_dimension_def py_str_def)
  with h show ?thesis by blast
qed

text \<open>
  The claim as first stated lets every emitted line come from a dimension with
  confidence above 0.2. The default profile with \<open>edit_count\<close> set to 1 has no such
  dimension, and its fragment is one line, the header.
\<close>

theorem to_prompt_fragment_header_counterexample:
  "edit_count ((default_profile 0)\<lparr>edit_count := 1\<rparr>) = 1
   \<and> to_prompt_fragment (\<lambda>v. []) ((default_profile 0)\<lparr>edit_count := 1\<rparr>) =
       ''AUTHOR STYLE PREFERENCES (learned from previous edits):''
   \<and> filter (\<lambda>d. confidence d > 2 / 10)
        (map snd (dimensions ((default_profile 0)\<lparr>edit_count := 1\<rparr>))) = []"
  by (simp add: to_prompt_fragment_def fragment_lines_def fragment_header_def
      default_profile_def new_dimension_def)

subsection \<open>Substrings\<close>







section \<open>Properties of the content generators\<close>

lemma split_on_char_nonempty: "split_on_char sep s \<noteq> []"
  by (induction s) (auto split: list.splits)

lemma py_join_split: "py_join [sep] (split_on_char sep s) = s"
proof (induction s)
  case Nil
  show ?case by simp
next
  case (Cons c cs)
  obtain w ws where w: "split_on_char sep cs = w # ws"
    using split_on_char_nonempty [of sep cs] by (cases "split_on_char sep cs") auto
  with Cons show ?case by (cases ws) auto
qed

lemma split_on_char_no_sep: "w \<in> set (split_on_char sep s) \<Longrightarrow> sep \<notin> set w"
  by (induction s arbitrary: w) (auto split: if_splits list.splits)

lemma py_lstrip_decomp: "s = takeWhile is_space s @ py_lstrip s"
  by (simp add: py_lstrip_def)

lemma py_rstrip_decomp: "s = py_rstrip s @ rev (takeWhile is_space (rev s))"
proof -
  have "rev (takeWhile is_space (rev s) @ dropWhile is_space (rev s)) = rev (rev s)"
    by (simp only: takeWhile_dropWhile_id)
  then have "rev (dropWhile is_space (rev s)) @ rev (takeWhile is_space (rev s)) = s"
    by (simp only: rev_append rev_rev_ident)
  then show ?thesis by (simp only: py_rstrip_def)
qed

lemma py_strip_decomp:
  "\<exists>pre suf. s = pre @ py_strip s @ suf \<and> list_all is_space pre \<and> list_all is_space suf"
proof -
  let ?pre = "takeWhile is_space s"
  let ?suf = "rev (takeWhile is_space (rev (py_lstrip s)))"
  have "s = ?pre @ py_lstrip s" by (rule py_lstrip_decomp)
  moreover have "py_lstrip s = py_strip s @ ?suf"
    unfolding py_strip_def by (rule py_rstrip_decomp)
  ultimately have "s = ?pre @ py_strip s @ ?suf" by simp
  moreover have "list_all is_space ?pre" by (simp add: list_all_iff) (meson set_takeWhileD)
  moreover have "list_all is_space ?suf" by (simp add: list_all_iff) (meson set_takeWhileD)
  ultimately show ?thesis by blast
qed

lemma py_lstrip_hd: "py_lstrip s \<noteq> [] \<Longrightarrow> \<not> is_space (hd (py_lstrip s))"
  unfolding py_lstrip_def by (rule hd_dropWhile)

lemma py_rstrip_last: "py_rstrip s \<noteq> [] \<Longrightarrow> \<not> is_space (last (py_rstrip s))"
  unfolding py_rstrip_def using hd_dropWhile [of is_space "rev s"] by (simp add: last_rev)

lemma py_rstrip_hd:
  assumes ne: "py_rstrip s \<noteq> []"
  shows "hd (py_rstrip s) = hd s"
proof -
  have "s = py_rstrip s @ rev (takeWhile is_space (rev s))" by (rule py_rstrip_decomp)
  then have "hd s = hd (py_rstrip s @ rev (takeWhile is_space (rev s)))" by simp
  with ne show ?thesis by simp
qed

lemma py_strip_ends:
  "py_strip s = [] \<or> (\<not> is_space (hd (py_strip s)) \<and> \<not> is_space (last (py_strip s)))"
proof (cases "py_strip s = []")
  case True
  then show ?thesis by simp
next
  case False
  then have ne: "py_rstrip (py_lstrip s) \<noteq> []" by (simp add: py_strip_def)
  then have "py_lstrip s \<noteq> []" by (auto simp: py_rstrip_def)
  then have "\<not> is_space (hd (py_lstrip s))" by (rule py_lstrip_hd)
  with py_rstrip_hd [OF ne] have "\<not> is_space (hd (py_strip s))" by (simp add: py_strip_def)
  moreover from py_rstrip_last [OF ne] have "\<not> is_space (last (py_strip s))"
    by (simp add: py_strip_def)
  ultimately show ?thesis by simp
qed

lemma lstrip_chars_decomp:
  "\<exists>pre. s = pre @ lstrip_chars chars s \<and> list_all (\<lambda>c. c \<in> set chars) pre"
proof -
  have "s = takeWhile (\<lambda>c. c \<in> set chars) s @ lstrip_chars chars s"
    by (simp add: lstrip_chars_def)
  moreover have "list_all (\<lambda>c. c \<in> set chars) (takeWhile (\<lambda>c. c \<in> set chars) s)"
    by (simp add: list_all_iff) (meson set_takeWhileD)
  ultimately show ?thesis by blast
qed

lemma split_ws_length:
  "length (split_ws cur cs) = token_starts (cur = []) cs + (if cur = [] then 0 else 1)"
  by (induction cur cs rule: split_ws.induct) auto

lemma py_split_count: "length (py_split s) = spec_token_count s"
  by (simp add: py_split_def spec_token_count_def split_ws_length)

lemma split_ws_tokens:
  "list_all (\<lambda>c. \<not> is_space c) cur \<Longrightarrow> w \<in> set (split_ws cur cs) \<Longrightarrow>
   w \<noteq> [] \<and> list_all (\<lambda>c. \<not> is_space c) w"
  by (induction cur cs rule: split_ws.induct) (auto split: if_splits)

lemma py_split_tokens:
  "w \<in> set (py_split s) \<Longrightarrow> w \<noteq> [] \<and> list_all (\<lambda>c. \<not> is_space c) w"
  unfolding py_split_def by (rule split_ws_tokens) simp_all

lemma reply_lines_decomp:
  "\<exists>first rest. reply_lines response = first # rest
     \<and> py_join [CHR 0x0A] (first # rest) = py_strip response \<and> CHR 0x0A \<notin> set first"
proof -
  obtain first rest where fr: "reply_lines response = first # rest"
    using split_on_char_nonempty [of "CHR 0x0A" "py_strip response"]
    by (cases "reply_lines response") (auto simp: reply_lines_def)
  then have "py_join [CHR 0x0A] (first # rest) = py_strip response"
    using py_join_split [of "CHR 0x0A" "py_strip response"] by (simp add: reply_lines_def)
  moreover have "CHR 0x0A \<notin> set first"
    using fr split_on_char_no_sep [of first "CHR 0x0A" "py_strip response"]
    by (simp add: reply_lines_def)
  ultimately show ?thesis using fr by blast
qed

lemma title_decomp:
  "\<exists>pre suf. line = pre @ py_strip (lstrip_chars ''# '' line) @ suf
     \<and> list_all (\<lambda>c. c = CHR ''#'' \<or> is_space c) pre \<and> list_all is_space suf"
proof -
  obtain p1 where p1: "line = p1 @ lstrip_chars ''# '' line"
      "list_all (\<lambda>c. c \<in> set ''# '') p1"
    using lstrip_chars_decomp [of line "''# ''"] by blast
  obtain p2 suf where p2:
      "lstrip_chars ''# '' line = p2 @ py_strip (lstrip_chars ''# '' line) @ suf"
      "list_all is_space p2" "list_all is_space suf"
    using py_strip_decomp [of "lstrip_chars ''# '' line"] by blast
  have sp: "is_space CHR '' ''" by (simp add: is_space_def)
  from p1(2) sp have "list_all (\<lambda>c. c = CHR ''#'' \<or> is_space c) p1"
    by (auto simp: list_all_iff)
  moreover from p2(2) have "list_all (\<lambda>c. c = CHR ''#'' \<or> is_space c) p2"
    by (auto simp: list_all_iff)
  ultimately have "list_all (\<lambda>c. c = CHR ''#'' \<or> is_space c) (p1 @ p2)" by simp
  moreover have "line = (p1 @ p2) @ py_strip (lstrip_chars ''# '' line) @ suf"
    using p1(1) p2(1) by (metis append.assoc)
  ultimately show ?thesis using p2(3) by blast
qed

text \<open>
  Claim C6, as amended: for every model reply, both generators trim the reply and split
  it at newlines; there is a first line. The title is the first line without its
  leading \<^verbatim>\<open>#\<close> and space characters and then trimmed of white space: what is cut off
  in front is \<^verbatim>\<open>#\<close> and white space only, what is cut off behind is white space, and
  the title neither begins nor ends with white space (it may still begin with
  \<^verbatim>\<open>#\<close>). The body is the remaining lines, joined by newlines and trimmed. The word
  count is the number of white-space-delimited tokens of the body. An article generator
  serves the two article types and a stream generator the three stream types. The reply
  "# Title Line", empty line, "Body text here" gives the title "Title Line", the body
  "Body text here" and the word count 3.
\<close>

theorem generators_parse_reply:
  "\<exists>first rest pre suf.
      reply_lines response = first # rest
    \<and> py_join [CHR 0x0A] (first # rest) = py_strip response
    \<and> CHR 0x0A \<notin> set first
    \<and> reply_title request response = py_strip (lstrip_chars ''# '' first)
    \<and> first = pre @ reply_title request response @ suf
    \<and> list_all (\<lambda>c. c = CHR ''#'' \<or> is_space c) pre
    \<and> list_all is_space suf
    \<and> (reply_title request response = []
        \<or> (\<not> is_space (hd (reply_title request response))
            \<and> \<not> is_space (last (reply_title request response))))
    \<and> reply_body response = py_strip (py_join [CHR 0x0A] rest)
    \<and> (article_template (request_type request) \<noteq> None \<longrightarrow>
          article_generate request response =
            Inr \<lparr>title = reply_title request response, body = reply_body response,
                 content_type = request_type request,
                 word_count = spec_token_count (reply_body response), stream_tag = None\<rparr>)
    \<and> (stream_template (request_type request) \<noteq> None \<longrightarrow>
          stream_generate request response =
            Inr \<lparr>title = reply_title request response, body = reply_body response,
                 content_type = request_type request,
                 word_count = spec_token_count (reply_body response),
                 stream_tag = Some (content_type_value (request_type request))\<rparr>)
    \<and> reply_title request ''# Title Line\<newline>\<newline>Body text here'' = ''Title Line''
    \<and> reply_body ''# Title Line\<newline>\<newline>Body text here'' = ''Body text here''
    \<and> spec_token_count ''Body text here'' = 3"
proof -
  obtain first rest where fr: "reply_lines response = first # rest"
      "py_join [CHR 0x0A] (first # rest) = py_strip response" "CHR 0x0A \<notin> set first"
    using reply_lines_decomp by blast
  have t: "reply_title request response = py_strip (lstrip_chars ''# '' first)"
    using fr(1) by (simp add: reply_title_def)
  obtain pre suf where ps: "first = pre @ reply_title request response @ suf"
      "list_all (\<lambda>c. c = CHR ''#'' \<or> is_space c) pre" "list_all is_space suf"
    using title_decomp [of first] unfolding t by blast
  have ends: "reply_title request response = []
        \<or> (\<not> is_space (hd (reply_title request response))
            \<and> \<not> is_space (last (reply_title request response)))"
    unfolding t by (rule py_strip_ends)
  have b: "reply_body response = py_strip (py_join [CHR 0x0A] rest)"
    using fr(1) by (simp add: reply_body_def)
  have a: "article_template (request_type request) \<noteq> None \<longrightarrow>
          article_generate request response =
            Inr \<lparr>title = reply_title request response, body = reply_body response,
                 content_type = request_type request,
                 word_count = spec_token_count (reply_body response), stream_tag = None\<rparr>"
    by (auto simp: article_generate_def py_split_count)
  have s: "stream_template (request_type request) \<noteq> None \<longrightarrow>
          stream_generate request response =
            Inr \<lparr>title = reply_title request response, body = reply_body response,
                 content_type = request_type request,
                 word_count = spec_token_count (reply_body response),
                 stream_tag = Some (content_type_value (request_type request))\<rparr>"
    by (auto simp: stream_generate_def py_split_count)
  have e1: "reply_title request ''# Title Line\<newline>\<newline>Body text here'' = ''Title Line''"
    by (simp add: reply_title_def reply_lines_def py_strip_def py_lstrip_def py_rstrip_def
        is_space_def lstrip_chars_def)
  have e2: "reply_body ''# Title Line\<newline>\<newline>Body text here'' = ''Body text here''"
    by (simp add: reply_body_def reply_lines_def py_strip_def py_lstrip_def py_rstrip_def
        is_space_def)
  have e3: "spec_token_count ''Body text here'' = 3"
    by (simp add: spec_token_count_def is_space_def)
  from fr t ps ends b a s e1 e2 e3 show ?thesis by blast
qed

theorem generators_parse_reply_witness:
  "article_template (request_type
     \<lparr>topic = ''AI Triage'', request_type = BLOG_POST, target_audience = ''general'',
      target_word_count = 1500, key_points = None, tone = None, references = None\<rparr>) \<noteq> None
   \<and> article_generate
     \<lparr>topic = ''AI Triage'', request_type = BLOG_POST, target_audience = ''general'',
      target_word_count = 1500, key_points = None, tone = None, references = None\<rparr>
     ''# Title Line\<newline>\<newline>Body text here'' =
   Inr \<lparr>title = ''Title Line'', body = ''Body text here'', content_type = BLOG_POST,
        word_count = 3, stream_tag = None\<rparr>"
proof -
  let ?r = "\<lparr>topic = ''AI Triage'', request_type = BLOG_POST, target_audience = ''general'',
      target_word_count = 1500, key_points = None, tone = None, references = None\<rparr>"
  let ?s = "''# Title Line\<newline>\<newline>Body text here''"
  have h: "article_template (request_type ?r) \<noteq> None" by simp
  from generators_parse_reply [of ?s ?r] h
  have "article_generate ?r ?s =
            Inr \<lparr>title = reply_title ?r ?s, body = reply_body ?s,
                 content_type = request_type ?r,
                 word_count = spec_token_count (reply_body ?s), stream_tag = None\<rparr>"
    and "reply_title ?r ?s = ''Title Line''"
    and "reply_body ?s = ''Body text here''"
    and "spec_token_count ''Body text here'' = 3" by blast+
  then show ?thesis using h by simp
qed

text \<open>
  The claim as first stated strips the leading \<^verbatim>\<open>#\<close> and white space of the first
  line. On a reply whose first line is \<^verbatim>\<open>#\<close>, a tab, and "# Title", the code stops
  removing \<^verbatim>\<open>#\<close> at the tab, and the title it returns begins with \<^verbatim>\<open>#\<close>.
\<close>

theorem generators_parse_reply_counterexample:
  "article_generate
     \<lparr>topic = ''AI Triage'', request_type = BLOG_POST, target_audience = ''general'',
      target_word_count = 1500, key_points = None, tone = None, references = None\<rparr>
     (''#'' @ [CHR 0x09] @ ''# Title\<newline>Body'') =
   Inr \<lparr>title = ''# Title'', body = ''Body'', content_type = BLOG_POST, word_count = 1,
        stream_tag = None\<rparr>"
  by (simp add: article_generate_def reply_title_def reply_body_def reply_lines_def
      py_strip_def py_lstrip_def py_rstrip_def is_space_def lstrip_chars_def py_split_def)

section \<open>Properties of the model client and the conversation\<close>






lemma alternating_append: "alternating (xs @ ys) \<Longrightarrow> alternating ys"
  by (induction xs rule: alternating.induct) (auto, (cases ys; simp)+)

lemma not_alternating_repeat:
  "role m = role n \<Longrightarrow> \<not> alternating (xs @ m # n # ys)"
  using alternating_append [of xs "m # n # ys"] by auto

lemma send_failure:
  assumes "\<not> streaming \<longrightarrow> client_generate client (system_prompt conv)
             (messages conv @ [\<lparr>role = ''user'', content = user_message\<rparr>]) = Inl exc"
    and "streaming \<longrightarrow> client_generate_streaming client (system_prompt conv)
             (messages conv @ [\<lparr>role = ''user'', content = user_message\<rparr>]) = Inl exc"
  shows "send client user_message streaming conv =
     (Inl exc, conv\<lparr>messages := messages conv @ [\<lparr>role = ''user'', content = user_message\<rparr>]\<rparr>)"
  using assms by (auto simp: send_def Let_def)

lemma send_messages:
  "\<exists>later. messages (snd (send client user_message streaming conv)) =
      messages conv @ \<lparr>role = ''user'', content = user_message\<rparr> # later"
  by (auto simp: send_def Let_def split: sum.splits)

text \<open>
  Claim C10: \<^verbatim>\<open>send\<close> appends the user message before it calls the model client.
  When that call raises, the exception propagates and the conversation keeps the user
  turn. A following \<^verbatim>\<open>send\<close> of the same text, whatever its client does, leaves a
  log in which that user turn is followed by a second user turn: the log does not
  alternate.
\<close>

theorem send_failure_keeps_user_turn:
  assumes "\<not> streaming \<longrightarrow> client_generate client (system_prompt conv)
             (messages conv @ [\<lparr>role = ''user'', content = user_message\<rparr>]) = Inl exc"
    and "streaming \<longrightarrow> client_generate_streaming client (system_prompt conv)
             (messages conv @ [\<lparr>role = ''user'', content = user_message\<rparr>]) = Inl exc"
  shows "send client user_message streaming conv =
           (Inl exc,
            conv\<lparr>messages := messages conv @ [\<lparr>role = ''user'', content = user_message\<rparr>]\<rparr>)
       \<and> (\<exists>later. messages (snd (send client' user_message streaming'
                   (snd (send client user_message streaming conv)))) =
              messages conv @ \<lparr>role = ''user'', content = user_message\<rparr>
                # \<lparr>role = ''user'', content = user_message\<rparr> # later)
       \<and> \<not> alternating (messages (snd (send client' user_message streaming'
                   (snd (send client user_message streaming conv)))))"
proof -
  let ?u = "\<lparr>role = ''user'', content = user_message\<rparr>"
  let ?c1 = "conv\<lparr>messages := messages conv @ [?u]\<rparr>"
  have a: "send client user_message streaming conv = (Inl exc, ?c1)"
    using assms by (rule send_failure)
  obtain later where m: "messages (snd (send client' user_message streaming' ?c1)) =
      messages ?c1 @ ?u # later"
    using send_messages [of client' user_message streaming' ?c1] by blast
  then have b: "messages (snd (send client' user_message streaming' ?c1)) =
      messages conv @ ?u # ?u # later" by simp
  have "\<not> alternating (messages conv @ ?u # ?u # later)"
    by (rule not_alternating_repeat) simp
  with a b show ?thesis by auto
qed

theorem send_failure_keeps_user_turn_witness:
  "send \<lparr>client_generate = (\<lambda>system msgs. Inl (RetryError OtherException)),
         client_generate_streaming = (\<lambda>system msgs. Inl (RetryError OtherException))\<rparr>
     ''Hello'' False \<lparr>system_prompt = ''You are helpful.'', messages = []\<rparr> =
     (Inl (RetryError OtherException),
      \<lparr>system_prompt = ''You are helpful.'',
       messages = [\<lparr>role = ''user'', content = ''Hello''\<rparr>]\<rparr>)
   \<and> \<not> alternating (messages (snd (send
         \<lparr>client_generate = (\<lambda>system msgs. Inr ''Hi''),
          client_generate_streaming = (\<lambda>system msgs. Inr [''Hi''])\<rparr>
         ''Hello'' False
         (snd (send \<lparr>client_generate = (\<lambda>system msgs. Inl (RetryError OtherException)),
                     client_generate_streaming =
                       (\<lambda>system msgs. Inl (RetryError OtherException))\<rparr>
                 ''Hello'' False \<lparr>system_prompt = ''You are helpful.'', messages = []\<rparr>)))))"
proof -
  let ?bad = "\<lparr>client_generate = (\<lambda>system msgs. Inl (RetryError OtherException)),
         client_generate_streaming = (\<lambda>system msgs. Inl (RetryError OtherException))\<rparr>"
  let ?good = "\<lparr>client_generate = (\<lambda>system msgs. Inr ''Hi''),
          client_generate_streaming = (\<lambda>system msgs. Inr [''Hi''])\<rparr>"
  let ?conv = "\<lparr>system_prompt = ''You are helpful.'', messages = []\<rparr>"
  have h1: "\<not> False \<longrightarrow> client_generate ?bad (system_prompt ?conv)
             (messages ?conv @ [\<lparr>role = ''user'', content = ''Hello''\<rparr>])
           = Inl (RetryError OtherException)" by simp
  have h2: "False \<longrightarrow> client_generate_streaming ?bad (system_prompt ?conv)
             (messages ?conv @ [\<lparr>role = ''user'', content = ''Hello''\<rparr>])
           = Inl (RetryError OtherException)" by simp
  note t = send_failure_keeps_user_turn [OF h1 h2, of ?good False]
  from t have "send ?bad ''Hello'' False ?conv =
      (Inl (RetryError OtherException),
       ?conv\<lparr>messages := messages ?conv @ [\<lparr>role = ''user'', content = ''Hello''\<rparr>]\<rparr>)"
    by (rule conjunct1)
  then have a: "send ?bad ''Hello'' False ?conv =
      (Inl (RetryError OtherException),
       \<lparr>system_prompt = ''You are helpful.'',
        messages = [\<lparr>role = ''user'', content = ''Hello''\<rparr>]\<rparr>)"
    by simp
  from t have c: "\<not> alternating (messages (snd (send ?good ''Hello'' False
      (snd (send ?bad ''Hello'' False ?conv)))))"
    by (elim conjE)
  from a c show ?thesis by (rule conjI)
qed

section \<open>Properties of the research analyzer\<close>

text \<open>A reply that is not JSON gives the fall-back result.\<close>

lemma analyze_fallback:
  "analyze None response article =
     Inr [(''title'', JStr (article_title article)),
          (''url'', JStr (article_url article)),
          (''relevance_score'', JInt 0),
          (''summary'', JStr (take 200 response)),
          (''relevant_focus_areas'', JArr []),
          (''content_angles'', JArr [])]"
  by (simp add: analyze_def)

text \<open>
  Claim C7: for every reply that cannot be parsed into the expected structure,
  \<^verbatim>\<open>analyze\<close> must return the fall-back result (relevance 0, no focus areas, no
  angles). The reply \<^verbatim>\<open>[]\<close> is valid JSON but not an object: the decoder returns a
  list, the assignment of the title to it raises TypeError, only JSONDecodeError is
  caught, and the call ends with that exception instead of a result.
\<close>

theorem analyze_array_reply_raises:
  "analyze (Some (JArr [])) ''[]''
     \<lparr>article_url = ''https://example.com/a'', article_title = ''Title'',
      article_source = ''S'', article_summary = ''Summary.'', article_full_text = None\<rparr>
   = Inl TypeError"
  by (simp add: analyze_def)

section \<open>Properties of the blog regeneration\<close>

lemma parse_template_plain:
  "CHR 0x5C \<notin> set repl \<Longrightarrow> parse_template repl = Some (map Literal repl)"
  by (induction repl) auto

lemma expand_template_plain: "expand_template (map Literal repl) matched = repl"
  by (induction repl) simp_all

lemma sub_scan_skip: "sub_scan items k s = sub_scan items 0 (drop k s)"
proof (induction k arbitrary: s)
  case 0
  show ?case by simp
next
  case (Suc k)
  show ?case
  proof (cases s)
    case Nil
    then show ?thesis by simp
  next
    case (Cons c cs)
    with Suc [of cs] show ?thesis by simp
  qed
qed

lemma match_at_pos: "match_at s = Some n \<Longrightarrow> 0 < n"
  by (auto simp: match_at_def blog_start_def split: if_splits option.splits)

lemma sub_scan_match:
  assumes "match_at s = Some n"
  shows "sub_scan items 0 s = expand_template items (take n s) @ sub_scan items 0 (drop n s)"
proof (cases s)
  case Nil
  with assms show ?thesis by (simp add: match_at_def blog_start_def)
next
  case (Cons c cs)
  from assms have "0 < n" by (rule match_at_pos)
  then obtain m where n: "n = Suc m" by (cases n) auto
  from assms Cons have "sub_scan items 0 s =
      expand_template items (take n s) @ sub_scan items (n - 1) cs" by simp
  also have "sub_scan items (n - 1) cs = sub_scan items 0 (drop (n - 1) cs)"
    by (rule sub_scan_skip)
  also have "drop (n - 1) cs = drop n s" using Cons n by simp
  finally show ?thesis .
qed

lemma sub_scan_no_match: "\<not> re_search s \<Longrightarrow> sub_scan items 0 s = s"
  by (induction s) auto

lemma sub_scan_before:
  "(\<forall>k < length pre. match_at (drop k (pre @ rest)) = None) \<Longrightarrow>
   sub_scan items 0 (pre @ rest) = pre @ sub_scan items 0 rest"
proof (induction pre)
  case Nil
  show ?case by simp
next
  case (Cons c pre)
  from Cons.prems have "match_at (drop 0 ((c # pre) @ rest)) = None" by blast
  then have here: "match_at (c # pre @ rest) = None" by simp
  have "\<forall>k < length pre. match_at (drop k (pre @ rest)) = None"
  proof (intro allI impI)
    fix k assume "k < length pre"
    then have "Suc k < length (c # pre)" by simp
    with Cons.prems have "match_at (drop (Suc k) ((c # pre) @ rest)) = None" by blast
    then show "match_at (drop k (pre @ rest)) = None" by simp
  qed
  with Cons.IH have "sub_scan items 0 (pre @ rest) = pre @ sub_scan items 0 rest" by simp
  with here show ?case by simp
qed

lemma find_first_contains: "find_first pat s = Some j \<Longrightarrow> str_contains pat s"
  by (induction s arbitrary: j) (auto split: if_splits)

lemma str_contains_drop: "str_contains pat (drop k s) \<Longrightarrow> str_contains pat s"
proof (induction s arbitrary: k)
  case Nil
  then show ?case by simp
next
  case (Cons c cs)
  show ?case
  proof (cases k)
    case 0
    with Cons.prems show ?thesis by simp
  next
    case (Suc m)
    with Cons.prems have "str_contains pat (drop m cs)" by simp
    with Cons.IH show ?thesis by simp
  qed
qed

lemma match_at_markers:
  assumes "match_at s \<noteq> None"
  shows "is_prefix blog_start s \<and> str_contains blog_end s"
proof -
  from assms have p: "is_prefix blog_start s"
    by (auto simp: match_at_def split: if_splits)
  with assms obtain j where "find_first blog_end (drop (length blog_start) s) = Some j"
    by (auto simp: match_at_def split: option.splits)
  then have "str_contains blog_end (drop (length blog_start) s)" by (rule find_first_contains)
  then have "str_contains blog_end s" by (rule str_contains_drop)
  with p show ?thesis by simp
qed

lemma re_search_markers:
  "re_search s \<Longrightarrow> str_contains blog_start s \<and> str_contains blog_end s"
proof (induction s)
  case Nil
  then show ?case by (simp add: match_at_def blog_start_def)
next
  case (Cons c cs)
  from Cons.prems consider "match_at (c # cs) \<noteq> None" | "re_search cs" by auto
  then show ?case
  proof cases
    case 1
    then show ?thesis using match_at_markers [of "c # cs"] by simp
  next
    case 2
    with Cons.IH show ?thesis by simp
  qed
qed

text \<open>
  A document that lacks one of the two markers stays as it is, and the warning is
  printed.
\<close>

lemma regenerate_blog_without_markers:
  assumes "\<not> str_contains blog_start html \<or> \<not> str_contains blog_end html"
  shows "regenerate_blog render records (Some html) = (Some html, [MarkersNotFound], False)"
proof -
  from assms re_search_markers [of html] have "\<not> re_search html" by blast
  then show ?thesis by (simp add: regenerate_blog_def Let_def)
qed

text \<open>
  When the rendered cards hold no backslash, a region from the start marker to the next
  end marker is replaced by them, and the text before it (where no region starts) and
  after it (where there is no further region) stays as it is.
\<close>

lemma re_sub_region:
  assumes plain: "CHR 0x5C \<notin> set cards"
    and before: "\<forall>k < length pre. match_at (drop k (pre @ region @ post)) = None"
    and region: "match_at (region @ post) = Some (length region)"
    and after: "\<not> re_search post"
  shows "re_sub cards (pre @ region @ post) = Some (pre @ cards @ post)"
proof -
  let ?items = "map Literal cards"
  have "sub_scan ?items 0 (pre @ region @ post) = pre @ sub_scan ?items 0 (region @ post)"
    using before by (rule sub_scan_before)
  also have "sub_scan ?items 0 (region @ post) =
      expand_template ?items (take (length region) (region @ post))
        @ sub_scan ?items 0 (drop (length region) (region @ post))"
    using region by (rule sub_scan_match)
  also have "\<dots> = cards @ sub_scan ?items 0 post" by (simp add: expand_template_plain)
  also have "sub_scan ?items 0 post = post" using after by (rule sub_scan_no_match)
  finally have "sub_scan ?items 0 (pre @ region @ post) = pre @ cards @ post" .
  with plain show ?thesis by (simp add: re_sub_def parse_template_plain)
qed

lemma re_search_here: "match_at s \<noteq> None \<Longrightarrow> re_search s"
  by (cases s) simp_all

lemma re_search_append: "re_search s \<Longrightarrow> re_search (pre @ s)"
  by (induction pre) simp_all

lemma regenerate_blog_region:
  assumes cards: "cards = render (map (\<lambda>a. \<lparr>card_title = record_title a, card_url = medium_url a,
                                      card_teaser = teaser a\<rparr>)
                   (filter (\<lambda>a. status a = ''published'' \<and> medium_url a \<noteq> []) records))"
    and plain: "CHR 0x5C \<notin> set cards"
    and before: "\<forall>k < length pre. match_at (drop k (pre @ region @ post)) = None"
    and region: "match_at (region @ post) = Some (length region)"
    and after: "\<not> re_search post"
  shows "regenerate_blog render records (Some (pre @ region @ post)) =
     (Some (pre @ cards @ post),
      [BlogUpdated (length (filter (\<lambda>a. status a = ''published'' \<and> medium_url a \<noteq> [])
                     records))],
      False)"
proof -
  from region have "re_search (region @ post)" by (simp add: re_search_here)
  then have found: "re_search (pre @ region @ post)" by (rule re_search_append)
  have "re_sub cards (pre @ region @ post) = Some (pre @ cards @ post)"
    using plain before region after by (rule re_sub_region)
  with found cards show ?thesis by (simp add: regenerate_blog_def Let_def)
qed

text \<open>
  Claim C9: with both markers present, the region between them is replaced with the
  rendered cards of the published records. The rendered text is handed to
  \<^verbatim>\<open>re.sub\<close> as a replacement template, so a backslash in it is read as an escape.
  With a template that shows the titles between the markers, a published record titled
  \<^verbatim>\<open>AC\DC\<close> makes \<^verbatim>\<open>re.sub\<close> raise (a bad escape): the command fails and the page
  is not regenerated. A record titled \<^verbatim>\<open>C:\new\<close> puts a line break where the title
  has a backslash and an n: the region is not the rendered cards.
\<close>

theorem regenerate_blog_backslash_title:
  "regenerate_blog
     (\<lambda>articles. blog_start @ concat (map card_title articles) @ blog_end)
     [\<lparr>record_title = ''AC'' @ [CHR 0x5C] @ ''DC'', status = ''published'',
       medium_url = ''https://medium.com/p/1'', teaser = ''Teaser''\<rparr>]
     (Some ''<html><!-- BLOG_START --><!-- BLOG_END --></html>'')
   = (Some ''<html><!-- BLOG_START --><!-- BLOG_END --></html>'', [], True)
   \<and> regenerate_blog
     (\<lambda>articles. blog_start @ concat (map card_title articles) @ blog_end)
     [\<lparr>record_title = ''C:'' @ [CHR 0x5C] @ ''new'', status = ''published'',
       medium_url = ''https://medium.com/p/1'', teaser = ''Teaser''\<rparr>]
     (Some ''<html><!-- BLOG_START --><!-- BLOG_END --></html>'')
   = (Some ''<html><!-- BLOG_START -->C:\<newline>ew<!-- BLOG_END --></html>'',
      [BlogUpdated 1], False)"
  by code_simp

end
